theory Spec2Isabelle
  imports Main "HOL-Library.AList"
begin

section \<open>Python values shared by the fixtures\<close>

text \<open>
  The exceptions the modelled code can raise, as values. A function of the source that
  can raise returns \<open>py_error + 'a\<close>, with \<open>Inl\<close> for the exception.
  \<open>Unmodelled\<close> is no Python exception: it is what the model of the operator \<^verbatim>\<open>%\<close>
  and the sample environment answer on an input outside the part of Python they
  describe.
\<close>

datatype py_error =
    TypeError
  | IndexError
  | KeyError
  | ValueError
  | ProgrammingError
  | UnicodeDecodeError
  | Unmodelled

text \<open>
  \<^verbatim>\<open>xs[i]\<close> on a Python list: a negative index counts from the end, an index out
  of range raises \<^verbatim>\<open>IndexError\<close>.
\<close>

definition list_getitem :: "'a list \<Rightarrow> int \<Rightarrow> py_error + 'a" where
  "list_getitem xs i =
     (if 0 \<le> i \<and> i < int (length xs) then Inr (xs ! nat i)
      else if i < 0 \<and> - int (length xs) \<le> i then Inr (xs ! nat (int (length xs) + i))
      else Inl IndexError)"

section \<open>MockCursor (conftest.py, fixture mock_connection)\<close>

text \<open>
  \<^verbatim>\<open>
  class MockCursor(object):
      def __init__(self, *args, **kwargs):
          self.statements = []
          self.return_rows = []
          self.cursor_position = 0
  \<close>
  The three attributes are the state of a cursor; \<open>cursor_position\<close> is a Python
  integer. A test materializes result rows by assigning \<open>return_rows\<close>.
\<close>

record ('stmt, 'row) MockCursor =
  statements :: "'stmt list"
  return_rows :: "'row list"
  cursor_position :: int

definition MockCursor_init :: "('stmt, 'row) MockCursor" where
  "MockCursor_init = \<lparr>statements = [], return_rows = [], cursor_position = 0\<rparr>"

text \<open>
  \<^verbatim>\<open>
  def execute(self, statement, *args, **kwargs):
      self.statements.append(statement)
  \<close>
  The extra arguments are ignored by the source and left out of the model.
\<close>

definition execute :: "('stmt, 'row) MockCursor \<Rightarrow> 'stmt \<Rightarrow> ('stmt, 'row) MockCursor" where
  "execute self statement = self\<lparr>statements := statements self @ [statement]\<rparr>"

text \<open>
  \<^verbatim>\<open>
  def fetchone(self, *args, **kwargs):
      if self.cursor_position > len(self.return_rows) - 1:
          return None
      else:
          next_row = self.return_rows[self.cursor_position]
          self.cursor_position += 1
          return next_row
  \<close>
  The result is the returned value (\<open>None\<close> for the sentinel, \<open>Some row\<close> for a
  row) with the cursor afterwards, or the exception of the list access.
\<close>

definition fetchone ::
  "('stmt, 'row) MockCursor \<Rightarrow> py_error + ('row option \<times> ('stmt, 'row) MockCursor)" where
  "fetchone self =
     (if cursor_position self > int (length (return_rows self)) - 1 then Inr (None, self)
      else (case list_getitem (return_rows self) (cursor_position self) of
              Inl e \<Rightarrow> Inl e
            | Inr next_row \<Rightarrow>
                Inr (Some next_row, self\<lparr>cursor_position := cursor_position self + 1\<rparr>)))"

text \<open>
  \<^verbatim>\<open>
  def __iter__(self):
      for row in self.return_rows:
          yield row
  \<close>
  The generator's loop as a recursion over the list it walks, collecting the yielded
  rows; the cursor is returned as it was, since the body assigns no attribute.
\<close>

fun yield_rows :: "'row list \<Rightarrow> 'row list" where
  "yield_rows [] = []"
| "yield_rows (row # rest) = row # yield_rows rest"

definition cursor_iter ::
  "('stmt, 'row) MockCursor \<Rightarrow> 'row list \<times> ('stmt, 'row) MockCursor" where
  "cursor_iter self = (yield_rows (return_rows self), self)"

subsection \<open>Sequences of calls on one cursor\<close>

text \<open>\<open>k\<close> successive \<^verbatim>\<open>fetchone\<close> calls; an exception ends the sequence.\<close>

fun fetch_n ::
  "nat \<Rightarrow> ('stmt, 'row) MockCursor \<Rightarrow> py_error + ('row option list \<times> ('stmt, 'row) MockCursor)" where
  "fetch_n 0 c = Inr ([], c)"
| "fetch_n (Suc k) c =
     (case fetchone c of
        Inl e \<Rightarrow> Inl e
      | Inr (r, c') \<Rightarrow>
          (case fetch_n k c' of
             Inl e \<Rightarrow> Inl e
           | Inr (rs, c'') \<Rightarrow> Inr (r # rs, c'')))"

text \<open>Executing the statements of a list one after the other.\<close>

fun execute_all :: "('stmt, 'row) MockCursor \<Rightarrow> 'stmt list \<Rightarrow> ('stmt, 'row) MockCursor" where
  "execute_all c [] = c"
| "execute_all c (s # ss) = execute_all (execute c s) ss"

text \<open>
  A call on a cursor is an \<^verbatim>\<open>execute\<close> of a statement or a \<^verbatim>\<open>fetchone\<close>.
  \<open>run_ops\<close> lists the cursor after each call of a sequence, in order; a call that
  raises ends the sequence there.
\<close>

datatype 'stmt cursor_op = Execute 'stmt | Fetchone

definition apply_op ::
  "('stmt, 'row) MockCursor \<Rightarrow> 'stmt cursor_op \<Rightarrow> py_error + ('stmt, 'row) MockCursor" where
  "apply_op c op =
     (case op of
        Execute statement \<Rightarrow> Inr (execute c statement)
      | Fetchone \<Rightarrow> (case fetchone c of Inl e \<Rightarrow> Inl e | Inr (r, c') \<Rightarrow> Inr c'))"

fun run_ops ::
  "('stmt, 'row) MockCursor \<Rightarrow> 'stmt cursor_op list \<Rightarrow> ('stmt, 'row) MockCursor list" where
  "run_ops c [] = []"
| "run_ops c (op # ops) =
     (case apply_op c op of Inl e \<Rightarrow> [] | Inr c' \<Rightarrow> c' # run_ops c' ops)"

section \<open>MockBucket (conftest.py, fixture mock_s3)\<close>

text \<open>
  \<^verbatim>\<open>
  class MockBucket(object):
      s3keys = {}
      name = "com.simple.mock"
  \<close>
  \<open>s3keys\<close> is an attribute of the class: the dictionary is created once, with the
  class, and an instance reads it through \<^verbatim>\<open>self.s3keys\<close> until \<^verbatim>\<open>reset\<close> assigns
  the instance an attribute of its own. \<open>recently_deleted_keys\<close> does not exist before
  \<^verbatim>\<open>delete_keys\<close> or \<^verbatim>\<open>reset\<close> assigns it. Each \<^verbatim>\<open>MagicMock()\<close> is a new object,
  told apart here by the number of mocks made before it.
\<close>

datatype magic_mock = MagicMock nat

record ('k, 'd) MockBucket =
  class_s3keys :: "'k \<rightharpoonup> magic_mock"
  inst_s3keys :: "('k \<rightharpoonup> magic_mock) option"
  recently_deleted_keys :: "'d list option"
  mocks_made :: nat

definition MockBucket_name :: string where
  "MockBucket_name = ''com.simple.mock''"

definition MockBucket_init :: "('k, 'd) MockBucket" where
  "MockBucket_init =
     \<lparr>class_s3keys = Map.empty, inst_s3keys = None, recently_deleted_keys = None,
      mocks_made = 0\<rparr>"

text \<open>The attribute lookup \<^verbatim>\<open>self.s3keys\<close>: the instance's dictionary if it has one.\<close>

definition s3keys :: "('k, 'd) MockBucket \<Rightarrow> ('k \<rightharpoonup> magic_mock)" where
  "s3keys self = (case inst_s3keys self of Some m \<Rightarrow> m | None \<Rightarrow> class_s3keys self)"

text \<open>
  \<^verbatim>\<open>
  def new_key(self, keypath):
      key_mock = MagicMock()
      self.s3keys[keypath] = key_mock
      return key_mock
  \<close>
  The item assignment updates in place the dictionary that \<^verbatim>\<open>self.s3keys\<close> finds.
\<close>

definition new_key :: "('k, 'd) MockBucket \<Rightarrow> 'k \<Rightarrow> magic_mock \<times> ('k, 'd) MockBucket" where
  "new_key self keypath =
     (let key_mock = MagicMock (mocks_made self);
          made = self\<lparr>mocks_made := Suc (mocks_made self)\<rparr>
      in (key_mock,
          (case inst_s3keys self of
             Some m \<Rightarrow> made\<lparr>inst_s3keys := Some (m(keypath \<mapsto> key_mock))\<rparr>
           | None \<Rightarrow> made\<lparr>class_s3keys := (class_s3keys self)(keypath \<mapsto> key_mock)\<rparr>)))"

text \<open>
  \<^verbatim>\<open>
  def delete_keys(self, keys):
      self.recently_deleted_keys = keys
  \<close>
\<close>

definition delete_keys :: "('k, 'd) MockBucket \<Rightarrow> 'd list \<Rightarrow> ('k, 'd) MockBucket" where
  "delete_keys self keys = self\<lparr>recently_deleted_keys := Some keys\<rparr>"

text \<open>
  \<^verbatim>\<open>
  def reset(self):
      self.s3keys = {}
      self.recently_deleted_keys = []
  \<close>
\<close>

definition reset :: "('k, 'd) MockBucket \<Rightarrow> ('k, 'd) MockBucket" where
  "reset self = self\<lparr>inst_s3keys := Some Map.empty, recently_deleted_keys := Some []\<rparr>"

text \<open>Creating the keys of a list of paths, one after the other.\<close>

fun new_keys :: "('k, 'd) MockBucket \<Rightarrow> 'k list \<Rightarrow> ('k, 'd) MockBucket" where
  "new_keys b [] = b"
| "new_keys b (keypath # rest) = new_keys (snd (new_key b keypath)) rest"

section \<open>The patched methods of the client (conftest.py)\<close>

subsection \<open>mogrify\<close>

text \<open>
  The parameters argument: \<^verbatim>\<open>None\<close> (the default), a mapping, given by its items in
  the order \<^verbatim>\<open>parameters.items()\<close> lists them, or a sequence. These are the shapes
  the specification accepts; an argument of another type is outside the model.
\<close>

datatype ('k, 'v) parameters =
    PNone
  | PMapping "('k \<times> 'v) list"
  | PSequence "'v list"

text \<open>
  What \<^verbatim>\<open>parameters\<close> is bound to when the formatting is reached: \<^verbatim>\<open>None\<close> still,
  a \<^verbatim>\<open>dict\<close> of decoded strings, or a \<^verbatim>\<open>list\<close> of the byte strings that
  \<^verbatim>\<open>getquoted()\<close> returned.
\<close>

datatype ('k, 'b) quoted =
    QNone
  | QDict "('k \<times> string) list"
  | QList "'b list"

text \<open>
  What \<^verbatim>\<open>mogrify\<close> calls and the repository does not define:
  \<open>adapt_getquoted\<close> is \<^verbatim>\<open>psycopg2.extensions.adapt(val).getquoted()\<close>,
  \<open>decode_utf8\<close> is \<^verbatim>\<open>.decode('utf-8')\<close> on its result, and \<open>percent\<close> is
  Python's operator \<^verbatim>\<open>%\<close> on a string and the rebound parameters. Each may raise.
  They are parameters of the model: a theorem about \<^verbatim>\<open>mogrify\<close> in an arbitrary
  environment holds whatever these functions are. \<open>python_env\<close>, further down, is
  the environment whose \<open>percent\<close> is the model of Python's operator.
\<close>

record ('k, 'v, 'b) py_env =
  adapt_getquoted :: "'v \<Rightarrow> py_error + 'b"
  decode_utf8 :: "'b \<Rightarrow> py_error + string"
  percent :: "string \<Rightarrow> ('k, 'b) quoted \<Rightarrow> py_error + string"

text \<open>
  A list comprehension \<^verbatim>\<open>[f(x) for x in xs]\<close> whose element expression may raise:
  the elements are computed in order and the first exception ends the comprehension.
\<close>

fun comprehension :: "('a \<Rightarrow> py_error + 'c) \<Rightarrow> 'a list \<Rightarrow> py_error + 'c list" where
  "comprehension f [] = Inr []"
| "comprehension f (x # xs) =
     (case f x of
        Inl e \<Rightarrow> Inl e
      | Inr y \<Rightarrow> (case comprehension f xs of Inl e \<Rightarrow> Inl e | Inr ys \<Rightarrow> Inr (y # ys)))"

text \<open>
  \<^verbatim>\<open>dict(pairs)\<close>: the pairs are inserted in order; a key met again keeps its place
  and takes the later value.
\<close>

definition dict_of_pairs :: "('k \<times> 'a) list \<Rightarrow> ('k \<times> 'a) list" where
  "dict_of_pairs pairs = foldl (\<lambda>d (key, val). AList.update key val d) [] pairs"

text \<open>
  The element of the first comprehension:
  \<^verbatim>\<open>(key, psycopg2.extensions.adapt(val).getquoted().decode('utf-8'))\<close>.
\<close>

definition quote_item :: "('k, 'v, 'b) py_env \<Rightarrow> 'k \<times> 'v \<Rightarrow> py_error + ('k \<times> string)" where
  "quote_item env item =
     (case adapt_getquoted env (snd item) of
        Inl e \<Rightarrow> Inl e
      | Inr q \<Rightarrow> (case decode_utf8 env q of Inl e \<Rightarrow> Inl e | Inr s \<Rightarrow> Inr (fst item, s)))"

text \<open>
  The first statement of \<^verbatim>\<open>mogrify\<close>, which rebinds \<^verbatim>\<open>parameters\<close>:
  \<^verbatim>\<open>
  if isinstance(parameters, collections.Mapping):
      parameters = dict([
          (key, psycopg2.extensions.adapt(val).getquoted().decode('utf-8'))
          for key, val in parameters.items()])
  elif isinstance(parameters, collections.Sequence):
      parameters = [
          psycopg2.extensions.adapt(val).getquoted()
          for val in parameters]
  \<close>
\<close>

definition quote_parameters ::
  "('k, 'v, 'b) py_env \<Rightarrow> ('k, 'v) parameters \<Rightarrow> py_error + ('k, 'b) quoted" where
  "quote_parameters env parameters =
     (case parameters of
        PMapping items \<Rightarrow>
          (case comprehension (quote_item env) items of
             Inl e \<Rightarrow> Inl e
           | Inr pairs \<Rightarrow> Inr (QDict (dict_of_pairs pairs)))
      | PSequence vals \<Rightarrow>
          (case comprehension (adapt_getquoted env) vals of
             Inl e \<Rightarrow> Inl e
           | Inr qs \<Rightarrow> Inr (QList qs))
      | PNone \<Rightarrow> Inr QNone)"

text \<open>
  The truth value of \<^verbatim>\<open>if parameters:\<close>: \<^verbatim>\<open>None\<close>, an empty \<^verbatim>\<open>dict\<close> and an
  empty \<^verbatim>\<open>list\<close> are false.
\<close>

definition truthy :: "('k, 'b) quoted \<Rightarrow> bool" where
  "truthy q = (case q of QNone \<Rightarrow> False | QDict d \<Rightarrow> d \<noteq> [] | QList xs \<Rightarrow> xs \<noteq> [])"

text \<open>
  \<^verbatim>\<open>
  def mogrify(self, batch, parameters=None, execute=False):
      ...
      if parameters:
          return batch % parameters
      return batch
  \<close>
  \<open>self\<close> is the client object and \<open>exec\<close> the argument \<^verbatim>\<open>execute\<close>; the body
  reads neither.
\<close>

definition mogrify ::
  "('k, 'v, 'b) py_env \<Rightarrow> 'self \<Rightarrow> string \<Rightarrow> ('k, 'v) parameters \<Rightarrow> bool \<Rightarrow> py_error + string" where
  "mogrify env self batch parameters exec =
     (case quote_parameters env parameters of
        Inl e \<Rightarrow> Inl e
      | Inr q \<Rightarrow> if truthy q then percent env batch q else Inr batch)"

subsection \<open>id_cols and columns_and_types\<close>

text \<open>
  \<^verbatim>\<open>
  def id_cols(self, table_name):
      if table_name == 'my_identity_table':
          return {'id_col'}
  \<close>
  A call that falls off the end of the body returns \<^verbatim>\<open>None\<close>.
\<close>

definition id_cols :: "'self \<Rightarrow> string \<Rightarrow> string set option" where
  "id_cols self table_name =
     (if table_name = ''my_identity_table'' then Some {''id_col''} else None)"

text \<open>
  \<^verbatim>\<open>
  def columns_and_types(self, table, col_str='*'):
      return [
          ('foo', 'boolean'),
          ('bar', 'numeric(23,2)'),
          ('baz', 'character varying(256)')
      ]
  \<close>
  A call without \<^verbatim>\<open>col_str\<close> passes \<open>''*''\<close>.
\<close>

definition columns_and_types :: "'self \<Rightarrow> 'table \<Rightarrow> 'col_str \<Rightarrow> (string \<times> string) list" where
  "columns_and_types self table col_str =
     [(''foo'', ''boolean''),
      (''bar'', ''numeric(23,2)''),
      (''baz'', ''character varying(256)'')]"

definition columns_and_types_default :: "'self \<Rightarrow> 'table \<Rightarrow> (string \<times> string) list" where
  "columns_and_types_default self table = columns_and_types self table ''*''"

section \<open>The operator \<^verbatim>\<open>%\<close> of Python on a string\<close>

text \<open>
  \<^verbatim>\<open>batch % parameters\<close> is reached with a \<^verbatim>\<open>dict\<close> or a \<^verbatim>\<open>list\<close> on the right,
  never with a tuple. CPython then formats as follows: the whole right operand is the
  one value that conversions without a key can consume, and, since both types have
  \<^verbatim>\<open>__getitem__\<close>, a conversion with a key \<^verbatim>\<open>%(key)s\<close> looks the key up in the
  operand. The model follows the operator on the templates made of plain text,
  \<^verbatim>\<open>%%\<close>, \<^verbatim>\<open>%(key)s\<close> and \<^verbatim>\<open>%s\<close>; on any other template (another conversion
  type, flags, a width, a template that ends inside a conversion) it answers
  \<open>Unmodelled\<close>.
\<close>

datatype token = Lit char | Named string | Positional

text \<open>
  The scanner reads the template from left to right: in plain text, after a
  \<^verbatim>\<open>%\<close>, inside the parentheses of a key (with the number of parentheses still open
  inside the key and the characters read so far, last first), or after a key.
\<close>

datatype scan_state = InText | AfterPercent | InKey nat string | AfterKey string

fun scan :: "scan_state \<Rightarrow> string \<Rightarrow> token list option" where
  "scan InText [] = Some []"
| "scan st [] = None"
| "scan InText (c # cs) =
     (if c = CHR ''%'' then scan AfterPercent cs
      else map_option ((#) (Lit c)) (scan InText cs))"
| "scan AfterPercent (c # cs) =
     (if c = CHR ''%'' then map_option ((#) (Lit c)) (scan InText cs)
      else if c = CHR ''('' then scan (InKey 0 []) cs
      else if c = CHR ''s'' then map_option ((#) Positional) (scan InText cs)
      else None)"
| "scan (InKey depth seen) (c # cs) =
     (if c = CHR '')'' then
        (case depth of
           0 \<Rightarrow> scan (AfterKey (rev seen)) cs
         | Suc d \<Rightarrow> scan (InKey d (c # seen)) cs)
      else if c = CHR ''('' then scan (InKey (Suc depth) (c # seen)) cs
      else scan (InKey depth (c # seen)) cs)"
| "scan (AfterKey key) (c # cs) =
     (if c = CHR ''s'' then map_option ((#) (Named key)) (scan InText cs) else None)"

definition template_tokens :: "string \<Rightarrow> token list option" where
  "template_tokens template = scan InText template"

definition emit :: "string \<Rightarrow> py_error + string \<Rightarrow> py_error + string" where
  "emit out r = (case r of Inl e \<Rightarrow> Inl e | Inr rest \<Rightarrow> Inr (out @ rest))"

text \<open>
  Formatting the conversions in order. \<open>strf\<close> is Python's \<^verbatim>\<open>str()\<close> of the right
  operand, which \<^verbatim>\<open>%s\<close> writes; \<open>avail\<close> tells whether a conversion without a key
  can still consume a value. A key that a \<^verbatim>\<open>dict\<close> does not have raises
  \<^verbatim>\<open>KeyError\<close>; a key looked up in a \<^verbatim>\<open>list\<close> raises \<^verbatim>\<open>TypeError\<close> (a list is not
  indexed by a string). The value found for a key is a string and is written as it is;
  it becomes the consumed value, so that a later \<^verbatim>\<open>%s\<close> raises the \<^verbatim>\<open>TypeError\<close>
  of a missing argument, as a second \<^verbatim>\<open>%s\<close> does.
\<close>

fun py_format ::
  "((string, 'b) quoted \<Rightarrow> py_error + string) \<Rightarrow> bool \<Rightarrow> (string, 'b) quoted \<Rightarrow> token list
     \<Rightarrow> py_error + string" where
  "py_format strf avail q [] = Inr []"
| "py_format strf avail q (Lit c # ts) = emit [c] (py_format strf avail q ts)"
| "py_format strf avail q (Named key # ts) =
     (case q of
        QDict d \<Rightarrow>
          (case map_of d key of
             None \<Rightarrow> Inl KeyError
           | Some val \<Rightarrow> emit val (py_format strf False q ts))
      | _ \<Rightarrow> Inl TypeError)"
| "py_format strf avail q (Positional # ts) =
     (if avail then
        (case strf q of Inl e \<Rightarrow> Inl e | Inr out \<Rightarrow> emit out (py_format strf False q ts))
      else Inl TypeError)"

definition py_percent ::
  "((string, 'b) quoted \<Rightarrow> py_error + string) \<Rightarrow> string \<Rightarrow> (string, 'b) quoted
     \<Rightarrow> py_error + string" where
  "py_percent strf template q =
     (case q of
        QNone \<Rightarrow> Inl Unmodelled
      | _ \<Rightarrow>
          (case template_tokens template of
             None \<Rightarrow> Inl Unmodelled
           | Some ts \<Rightarrow> py_format strf True q ts))"

text \<open>
  The environment of a Python interpreter: the operator \<^verbatim>\<open>%\<close> is the one above, and
  the adapter, the decoder and \<^verbatim>\<open>str()\<close> are those given.
\<close>

definition python_env ::
  "('v \<Rightarrow> py_error + 'b) \<Rightarrow> ('b \<Rightarrow> py_error + string)
     \<Rightarrow> ((string, 'b) quoted \<Rightarrow> py_error + string) \<Rightarrow> (string, 'v, 'b) py_env" where
  "python_env adapt decode strf =
     \<lparr>adapt_getquoted = adapt, decode_utf8 = decode, percent = py_percent strf\<rparr>"

section \<open>A sample environment\<close>

text \<open>
  To evaluate \<^verbatim>\<open>mogrify\<close> on concrete arguments the library functions must be
  concrete too. The sample environment describes them on simple strings, as Python 3
  has them, and answers \<open>Unmodelled\<close> elsewhere:
  \<^item> values are strings, and a string of ASCII characters with no quote and no
    backslash is quoted by \<^verbatim>\<open>getquoted()\<close> between two single quotes;
  \<^item> a byte string of ASCII characters decodes to itself;
  \<^item> \<^verbatim>\<open>repr\<close> of a string of printable ASCII characters with no backslash and no
    double quote writes it between double quotes if it has a single quote, between
    single quotes if not, and \<^verbatim>\<open>repr\<close> of such a byte string puts a \<^verbatim>\<open>b\<close> before;
  \<^item> \<^verbatim>\<open>str()\<close> of a \<^verbatim>\<open>dict\<close> lists \<^verbatim>\<open>key: value\<close> by \<^verbatim>\<open>repr\<close> in the order
    of the dictionary, between braces, and \<^verbatim>\<open>str()\<close> of a \<^verbatim>\<open>list\<close> lists its
    elements between brackets.
\<close>

definition plain_char :: "char \<Rightarrow> bool" where
  "plain_char c = (c \<noteq> CHR 0x27 \<and> c \<noteq> CHR 0x5C \<and> (of_char c :: nat) < 128)"

definition sample_getquoted :: "string \<Rightarrow> py_error + string" where
  "sample_getquoted val =
     (if list_all plain_char val then Inr (CHR 0x27 # val @ [CHR 0x27]) else Inl Unmodelled)"

definition sample_decode :: "string \<Rightarrow> py_error + string" where
  "sample_decode b =
     (if list_all (\<lambda>c. (of_char c :: nat) < 128) b then Inr b else Inl Unmodelled)"

definition repr_char :: "char \<Rightarrow> bool" where
  "repr_char c =
     (c \<noteq> CHR 0x22 \<and> c \<noteq> CHR 0x5C \<and> 32 \<le> (of_char c :: nat) \<and> (of_char c :: nat) < 127)"

definition sample_repr :: "string \<Rightarrow> py_error + string" where
  "sample_repr s =
     (if list_all repr_char s then
        (if CHR 0x27 \<in> set s then Inr (CHR 0x22 # s @ [CHR 0x22])
         else Inr (CHR 0x27 # s @ [CHR 0x27]))
      else Inl Unmodelled)"

fun join :: "string list \<Rightarrow> string" where
  "join [] = []"
| "join [x] = x"
| "join (x # y # rest) = x @ '', '' @ join (y # rest)"

definition repr_item :: "string \<times> string \<Rightarrow> py_error + string" where
  "repr_item item =
     (case sample_repr (fst item) of
        Inl e \<Rightarrow> Inl e
      | Inr k \<Rightarrow> (case sample_repr (snd item) of Inl e \<Rightarrow> Inl e | Inr v \<Rightarrow> Inr (k @ '': '' @ v)))"

definition repr_bytes :: "string \<Rightarrow> py_error + string" where
  "repr_bytes b = (case sample_repr b of Inl e \<Rightarrow> Inl e | Inr r \<Rightarrow> Inr (CHR ''b'' # r))"

definition sample_str :: "(string, string) quoted \<Rightarrow> py_error + string" where
  "sample_str q =
     (case q of
        QNone \<Rightarrow> Inr ''None''
      | QDict d \<Rightarrow>
          (case comprehension repr_item d of
             Inl e \<Rightarrow> Inl e
           | Inr items \<Rightarrow> Inr (''{'' @ join items @ ''}''))
      | QList xs \<Rightarrow>
          (case comprehension repr_bytes xs of
             Inl e \<Rightarrow> Inl e
           | Inr items \<Rightarrow> Inr (''['' @ join items @ '']'')))"

definition sample_env :: "(string, string, string) py_env" where
  "sample_env = python_env sample_getquoted sample_decode sample_str"

section \<open>Properties of the cursor\<close>

lemma fetchone_in_range:
  assumes "0 \<le> cursor_position c" and "cursor_position c < int (length (return_rows c))"
  shows "fetchone c =
           Inr (Some (return_rows c ! nat (cursor_position c)),
                c\<lparr>cursor_position := cursor_position c + 1\<rparr>)"
  using assms by (simp add: fetchone_def list_getitem_def)

lemma fetchone_exhausted:
  assumes "int (length (return_rows c)) \<le> cursor_position c"
  shows "fetchone c = Inr (None, c)"
  using assms by (simp add: fetchone_def)

lemma fetch_n_from:
  assumes "0 \<le> cursor_position c" and "cursor_position c \<le> int (length (return_rows c))"
  shows "fetch_n k c =
           Inr (map Some (take k (drop (nat (cursor_position c)) (return_rows c)))
                  @ replicate (k - (length (return_rows c) - nat (cursor_position c))) None,
                c\<lparr>cursor_position := min (cursor_position c + int k) (int (length (return_rows c)))\<rparr>)"
  using assms
proof (induction k arbitrary: c)
  case 0
  then show ?case by simp
next
  case (Suc k)
  show ?case
  proof (cases "cursor_position c < int (length (return_rows c))")
    case True
    let ?c' = "c\<lparr>cursor_position := cursor_position c + 1\<rparr>"
    have step: "fetchone c = Inr (Some (return_rows c ! nat (cursor_position c)), ?c')"
      using Suc.prems(1) True by (rule fetchone_in_range)
    have p': "0 \<le> cursor_position ?c'" "cursor_position ?c' \<le> int (length (return_rows ?c'))"
      using Suc.prems(1) True by simp_all
    have lt: "nat (cursor_position c) < length (return_rows c)"
      using Suc.prems(1) True by linarith
    have dr: "drop (nat (cursor_position c)) (return_rows c) =
                return_rows c ! nat (cursor_position c)
                  # drop (nat (cursor_position c + 1)) (return_rows c)"
      using lt Suc.prems(1) by (simp add: Cons_nth_drop_Suc nat_add_distrib)
    have cnt: "Suc k - (length (return_rows c) - nat (cursor_position c)) =
                 k - (length (return_rows c) - nat (cursor_position c + 1))"
      using lt Suc.prems(1) by (simp add: nat_add_distrib)
    show ?thesis
      using Suc.IH [OF p'] step dr cnt by (simp add: add.commute add.left_commute)
  next
    case False
    then have ex: "int (length (return_rows c)) \<le> cursor_position c" by simp
    then have eq: "cursor_position c = int (length (return_rows c))"
      using Suc.prems(2) by simp
    have step: "fetchone c = Inr (None, c)"
      using ex by (rule fetchone_exhausted)
    show ?thesis
      using Suc.IH [OF Suc.prems] step eq by (simp add: replicate_Suc [symmetric] del: replicate_Suc)
  qed
qed


text \<open>
  Claim C1. On a cursor at position 0 over the rows \<open>rows\<close> (whatever statements it
  has recorded), \<open>k\<close> successive \<^verbatim>\<open>fetchone\<close> calls never raise: they return the
  first \<open>k\<close> rows in the order of \<open>return_rows\<close>, each once, and once the rows are
  used up every further call returns the sentinel \<open>None\<close>. The cursor ends at position
  \<open>min k (length rows)\<close>.
\<close>

theorem fetchone_each_row_once_then_None:
  "fetch_n k \<lparr>statements = ss, return_rows = rows, cursor_position = 0\<rparr> =
     Inr (map Some (take k rows) @ replicate (k - length rows) None,
          \<lparr>statements = ss, return_rows = rows,
           cursor_position = int (min k (length rows))\<rparr>)"
proof -
  let ?c = "\<lparr>statements = ss, return_rows = rows, cursor_position = 0\<rparr>"
  have "0 \<le> cursor_position ?c" "cursor_position ?c \<le> int (length (return_rows ?c))"
    by simp_all
  from fetch_n_from [OF this, of k] show ?thesis
    by (simp add: min_def)
qed

theorem fetchone_each_row_once_then_None_witness:
  "fetch_n 5 \<lparr>statements = [''SELECT 1''], return_rows = [10, 20, 30 :: int],
              cursor_position = 0\<rparr> =
     Inr ([Some 10, Some 20, Some 30, None, None],
          \<lparr>statements = [''SELECT 1''], return_rows = [10, 20, 30], cursor_position = 3\<rparr>)"
  using fetchone_each_row_once_then_None [of 5 "[''SELECT 1'']" "[10, 20, 30 :: int]"]
  by (simp add: numeral_eq_Suc)


lemma execute_all_statements: "statements (execute_all c ss) = statements c @ ss"
  by (induction ss arbitrary: c) (simp_all add: execute_def)

lemma execute_all_frame:
  "return_rows (execute_all c ss) = return_rows c \<and>
   cursor_position (execute_all c ss) = cursor_position c"
  by (induction ss arbitrary: c) (simp_all add: execute_def)

text \<open>
  Claim C7. After the statements \<open>ss\<close> are executed in order on a cursor that has
  recorded none, its \<open>statements\<close> are exactly \<open>ss\<close>, in execution order; on any
  cursor they are appended to what was recorded, and neither one \<^verbatim>\<open>execute\<close> nor a
  sequence of them changes \<open>return_rows\<close> or \<open>cursor_position\<close>.
\<close>

theorem execute_records_statements_in_order:
  "statements (execute_all \<lparr>statements = [], return_rows = rows, cursor_position = p\<rparr> ss) = ss
   \<and> statements (execute_all c ss) = statements c @ ss
   \<and> return_rows (execute_all c ss) = return_rows c
   \<and> cursor_position (execute_all c ss) = cursor_position c
   \<and> return_rows (execute c s) = return_rows c
   \<and> cursor_position (execute c s) = cursor_position c"
  by (simp add: execute_all_statements execute_all_frame execute_def)

theorem execute_records_statements_in_order_witness:
  "execute_all \<lparr>statements = [], return_rows = [7 :: int], cursor_position = 1\<rparr>
     [''CREATE'', ''INSERT'', ''DROP''] =
   \<lparr>statements = [''CREATE'', ''INSERT'', ''DROP''], return_rows = [7], cursor_position = 1\<rparr>"
proof -
  let ?c = "\<lparr>statements = [] :: string list, return_rows = [7 :: int], cursor_position = 1\<rparr>"
  let ?r = "execute_all ?c [''CREATE'', ''INSERT'', ''DROP'']"
  from execute_records_statements_in_order
         [of "[7 :: int]" 1 "[''CREATE'', ''INSERT'', ''DROP'']" ?c "''x''"]
  have "statements ?r = [''CREATE'', ''INSERT'', ''DROP'']"
    and "return_rows ?r = [7]" and "cursor_position ?r = 1"
    by simp_all
  then show ?thesis
    by (cases ?r) simp
qed

lemma yield_rows_all: "yield_rows rows = rows"
  by (induction rows) simp_all

lemma fetchone_frame:
  assumes "fetchone c = Inr (r, c')"
  shows "return_rows c' = return_rows c \<and> statements c' = statements c"
  using assms by (auto simp: fetchone_def split: if_splits sum.splits)

lemma fetch_n_frame:
  assumes "fetch_n k c = Inr (rs, c')"
  shows "return_rows c' = return_rows c \<and> statements c' = statements c"
  using assms
proof (induction k arbitrary: c rs)
  case 0
  then show ?case by simp
next
  case (Suc k)
  from Suc.prems obtain r c1 rs1 where
    one: "fetchone c = Inr (r, c1)" and more: "fetch_n k c1 = Inr (rs1, c')"
    by (auto split: sum.splits prod.splits)
  from Suc.IH [OF more] fetchone_frame [OF one] show ?case by simp
qed

text \<open>
  Claim C9. Iterating a cursor yields all of \<open>return_rows\<close> from the first row,
  whatever \<open>cursor_position\<close> is, and leaves the cursor as it was. So \<^verbatim>\<open>fetchone\<close>
  calls after an iteration return what they would have returned without it, and an
  iteration after any number of \<^verbatim>\<open>fetchone\<close> calls still yields every row.
\<close>

theorem iter_yields_all_rows_and_keeps_position:
  "fst (cursor_iter c) = return_rows c
   \<and> snd (cursor_iter c) = c
   \<and> cursor_position (snd (cursor_iter c)) = cursor_position c
   \<and> fetch_n k (snd (cursor_iter c)) = fetch_n k c
   \<and> (\<forall>rs c'. fetch_n k c = Inr (rs, c') \<longrightarrow> fst (cursor_iter c') = return_rows c)"
  by (auto simp: cursor_iter_def yield_rows_all dest: fetch_n_frame)

theorem iter_yields_all_rows_and_keeps_position_witness:
  "fst (cursor_iter \<lparr>statements = [''q''], return_rows = [1, 2, 3 :: int],
                     cursor_position = 2\<rparr>) = [1, 2, 3]
   \<and> cursor_position (snd (cursor_iter \<lparr>statements = [''q''], return_rows = [1, 2, 3 :: int],
                     cursor_position = 2\<rparr>)) = 2
   \<and> fst (cursor_iter \<lparr>statements = [''q''], return_rows = [1, 2, 3 :: int],
                     cursor_position = 3\<rparr>) = [1, 2, 3]"
proof -
  let ?c = "\<lparr>statements = [''q''], return_rows = [1, 2, 3 :: int], cursor_position = 2\<rparr>"
  let ?c' = "\<lparr>statements = [''q''], return_rows = [1, 2, 3 :: int], cursor_position = 3\<rparr>"
  have f: "fetch_n 1 ?c = Inr ([Some 3], ?c')"
    by (simp add: fetchone_def list_getitem_def)
  from iter_yields_all_rows_and_keeps_position [of ?c 1] f show ?thesis
    by simp
qed


lemma apply_op_position:
  assumes "apply_op c op = Inr c'"
  shows "cursor_position c \<le> cursor_position c'"
    and "cursor_position c \<le> int (length (return_rows c)) \<Longrightarrow>
         cursor_position c' \<le> int (length (return_rows c'))"
  using assms
  by (auto simp: apply_op_def execute_def fetchone_def
           split: cursor_op.splits if_splits sum.splits)

lemma apply_op_returns:
  assumes "0 \<le> cursor_position c"
  shows "\<exists>c'. apply_op c op = Inr c' \<and> 0 \<le> cursor_position c'"
proof (cases op)
  case (Execute statement)
  then show ?thesis using assms by (simp add: apply_op_def execute_def)
next
  case Fetchone
  show ?thesis
  proof (cases "cursor_position c < int (length (return_rows c))")
    case True
    from fetchone_in_range [OF assms True] Fetchone assms show ?thesis
      by (simp add: apply_op_def)
  next
    case False
    then have "int (length (return_rows c)) \<le> cursor_position c" by simp
    from fetchone_exhausted [OF this] Fetchone assms show ?thesis
      by (simp add: apply_op_def)
  qed
qed

lemma run_ops_positions:
  assumes "cursor_position c \<le> int (length (return_rows c))"
  shows "sorted (map cursor_position (c # run_ops c ops))
         \<and> list_all (\<lambda>s. cursor_position s \<le> int (length (return_rows s))) (c # run_ops c ops)"
  using assms
proof (induction ops arbitrary: c)
  case Nil
  then show ?case by simp
next
  case (Cons op ops)
  show ?case
  proof (cases "apply_op c op")
    case (Inl e)
    then show ?thesis using Cons.prems by simp
  next
    case (Inr c')
    note pos = apply_op_position [OF Inr]
    have b: "cursor_position c' \<le> int (length (return_rows c'))"
      using pos(2) Cons.prems by simp
    from Cons.IH [OF b]
    have ih: "sorted (map cursor_position (c' # run_ops c' ops))"
      and ih2: "list_all (\<lambda>s. cursor_position s \<le> int (length (return_rows s))) (c' # run_ops c' ops)"
      by simp_all
    from ih have "\<forall>x \<in> set (map cursor_position (c' # run_ops c' ops)). cursor_position c' \<le> x"
      by auto
    with pos(1) have "\<forall>x \<in> set (map cursor_position (c' # run_ops c' ops)). cursor_position c \<le> x"
      by (meson order_trans)
    with ih ih2 Inr Cons.prems show ?thesis
      by simp
  qed
qed

lemma run_ops_complete:
  assumes "0 \<le> cursor_position c"
  shows "length (run_ops c ops) = length ops"
  using assms
proof (induction ops arbitrary: c)
  case Nil
  then show ?case by simp
next
  case (Cons op ops)
  from apply_op_returns [OF Cons.prems, of op] obtain c' where
    "apply_op c op = Inr c'" "0 \<le> cursor_position c'" by blast
  with Cons.IH [of c'] show ?case by simp
qed

text \<open>
  Claim C4. Take a cursor whose position is within its rows, as it is when the rows
  are materialized on a new cursor, and any sequence of \<^verbatim>\<open>execute\<close> and
  \<^verbatim>\<open>fetchone\<close> calls. The positions of the cursor before the calls and after each
  call never decrease, and none exceeds the number of rows. From a position that is
  not negative no call raises, so the sequence runs to its end.
\<close>

theorem cursor_position_monotone_and_bounded:
  assumes "cursor_position c \<le> int (length (return_rows c))"
  shows "sorted (map cursor_position (c # run_ops c ops))
         \<and> (\<forall>s \<in> set (c # run_ops c ops). cursor_position s \<le> int (length (return_rows s)))
         \<and> (0 \<le> cursor_position c \<longrightarrow> length (run_ops c ops) = length ops)"
  using run_ops_positions [OF assms, of ops] run_ops_complete [of c ops]
  unfolding list_all_iff by blast

theorem cursor_position_monotone_and_bounded_witness:
  "map cursor_position
     (run_ops \<lparr>statements = [], return_rows = [10, 20 :: int], cursor_position = 0\<rparr>
        [Fetchone, Execute ''SELECT 1'', Fetchone, Fetchone, Fetchone]) = [1, 1, 2, 2, 2]
   \<and> sorted (map cursor_position
       (\<lparr>statements = [], return_rows = [10, 20 :: int], cursor_position = 0\<rparr>
        # run_ops \<lparr>statements = [], return_rows = [10, 20 :: int], cursor_position = 0\<rparr>
            [Fetchone, Execute ''SELECT 1'', Fetchone, Fetchone, Fetchone]))"
proof -
  let ?c = "\<lparr>statements = [] :: string list, return_rows = [10, 20 :: int], cursor_position = 0\<rparr>"
  let ?ops = "[Fetchone, Execute ''SELECT 1'', Fetchone, Fetchone, Fetchone]"
  have bound: "cursor_position ?c \<le> int (length (return_rows ?c))" by simp
  have run: "map cursor_position (run_ops ?c ?ops) = [1, 1, 2, 2, 2]"
    by (simp add: apply_op_def fetchone_def list_getitem_def execute_def)
  from cursor_position_monotone_and_bounded [OF bound, of ?ops] run show ?thesis
    by blast
qed

lemma s3keys_delete_keys: "s3keys (delete_keys b ks) = s3keys b"
  by (simp add: s3keys_def delete_keys_def split: option.splits)

lemma s3keys_new_key: "s3keys (snd (new_key b keypath)) keypath = Some (fst (new_key b keypath))"
  by (simp add: s3keys_def new_key_def Let_def split: option.splits)

text \<open>
  Claim C8. \<^verbatim>\<open>delete_keys(ks)\<close> assigns \<open>recently_deleted_keys\<close> and nothing else:
  the dictionary of the class, the dictionary of the instance (if \<^verbatim>\<open>reset\<close> made one)
  and so the mapping \<^verbatim>\<open>self.s3keys\<close> are what they were, after any earlier calls of
  \<^verbatim>\<open>new_key\<close>, and a key created with \<^verbatim>\<open>new_key\<close> is still found under its path.
\<close>

theorem delete_keys_only_records_keys:
  "recently_deleted_keys (delete_keys b ks) = Some ks
   \<and> s3keys (delete_keys b ks) = s3keys b
   \<and> class_s3keys (delete_keys b ks) = class_s3keys b
   \<and> inst_s3keys (delete_keys b ks) = inst_s3keys b
   \<and> mocks_made (delete_keys b ks) = mocks_made b
   \<and> s3keys (delete_keys (new_keys b paths) ks) = s3keys (new_keys b paths)
   \<and> s3keys (delete_keys (snd (new_key b keypath)) ks) keypath = Some (fst (new_key b keypath))"
  by (simp add: s3keys_delete_keys s3keys_new_key) (simp add: delete_keys_def)

theorem delete_keys_only_records_keys_witness:
  "s3keys (delete_keys (snd (new_key (MockBucket_init :: (string, string) MockBucket) ''a/b.json''))
             [''a/b.json'']) ''a/b.json'' = Some (MagicMock 0)
   \<and> recently_deleted_keys
        (delete_keys (snd (new_key (MockBucket_init :: (string, string) MockBucket) ''a/b.json''))
             [''a/b.json'']) = Some [''a/b.json'']"
proof -
  let ?b = "MockBucket_init :: (string, string) MockBucket"
  have k: "fst (new_key ?b ''a/b.json'') = MagicMock 0"
    by (simp add: new_key_def MockBucket_init_def Let_def)
  from delete_keys_only_records_keys [of ?b "[''a/b.json'']" "[]" "''a/b.json''"]
    delete_keys_only_records_keys [of "snd (new_key ?b ''a/b.json'')" "[''a/b.json'']" "[]" "''x''"]
    k
  show ?thesis
    by simp
qed


section \<open>Properties of mogrify\<close>

lemma mogrify_falsy:
  "mogrify env self batch PNone exec = Inr batch"
  "mogrify env self batch (PMapping []) exec = Inr batch"
  "mogrify env self batch (PSequence []) exec = Inr batch"
  by (simp_all add: mogrify_def quote_parameters_def truthy_def dict_of_pairs_def)

lemma comprehension_Inr:
  assumes "comprehension f xs = Inr ys"
  shows "ys = map (\<lambda>x. projr (f x)) xs" and "\<And>x. x \<in> set xs \<Longrightarrow> f x = Inr (projr (f x))"
  using assms
  by (induction xs arbitrary: ys) (auto split: sum.splits)

lemma comprehension_all_Inr:
  assumes "\<And>x. x \<in> set xs \<Longrightarrow> f x = Inr (projr (f x))"
  shows "comprehension f xs = Inr (map (\<lambda>x. projr (f x)) xs)"
  using assms
proof (induction xs)
  case Nil
  then show ?case by simp
next
  case (Cons x xs)
  have hd: "f x = Inr (projr (f x))" using Cons.prems by simp
  have tl: "comprehension f xs = Inr (map (\<lambda>x. projr (f x)) xs)"
    using Cons.IH Cons.prems by simp
  show ?case
    using tl by (subst comprehension.simps, subst hd) simp
qed

lemma quote_item_key:
  assumes "quote_item env item = Inr p"
  shows "fst p = fst item"
  using assms by (auto simp: quote_item_def split: sum.splits)

lemma quote_item_keys:
  assumes "comprehension (quote_item env) items = Inr pairs"
  shows "map fst pairs = map fst items"
proof -
  have "fst (projr (quote_item env x)) = fst x" if "x \<in> set items" for x
    using comprehension_Inr(2) [OF assms that] quote_item_key by metis
  then show ?thesis
    unfolding comprehension_Inr(1) [OF assms] by simp
qed

lemma update_fresh:
  "key \<notin> fst ` set d \<Longrightarrow> AList.update key val d = d @ [(key, val)]"
  by (induction d) auto

lemma foldl_update_distinct:
  "distinct (map fst (d @ ps)) \<Longrightarrow>
     foldl (\<lambda>d (key, val). AList.update key val d) d ps = d @ ps"
proof (induction ps arbitrary: d)
  case Nil
  then show ?case by simp
next
  case (Cons p ps)
  obtain k v where p: "p = (k, v)" by (cases p)
  from Cons.prems p have fresh: "k \<notin> fst ` set d" by auto
  from Cons.prems p have "distinct (map fst ((d @ [(k, v)]) @ ps))" by simp
  from Cons.IH [OF this] show ?case
    using p fresh by (simp add: update_fresh)
qed

lemma dict_of_pairs_distinct:
  "distinct (map fst ps) \<Longrightarrow> dict_of_pairs ps = ps"
  using foldl_update_distinct [of "[]" ps] by (simp add: dict_of_pairs_def)

lemma py_format_named_only:
  assumes "Positional \<notin> set ts" and "map_of d = map_of d'"
  shows "py_format strf avail (QDict d) ts = py_format strf avail' (QDict d') ts"
  using assms
proof (induction ts arbitrary: avail avail')
  case Nil
  then show ?case by simp
next
  case (Cons tok ts)
  then have ih: "\<And>a a'. py_format strf a (QDict d) ts = py_format strf a' (QDict d') ts"
    by simp
  show ?case
  proof (cases tok)
    case (Lit c)
    then show ?thesis using ih [of avail avail'] by simp
  next
    case (Named key)
    then show ?thesis using ih [of False False] Cons.prems(2) by (simp split: option.splits)
  next
    case Positional
    with Cons.prems(1) show ?thesis by simp
  qed
qed

lemma py_format_keys_present:
  assumes "Positional \<notin> set ts" and "\<And>key. Named key \<in> set ts \<Longrightarrow> key \<in> fst ` set d"
  shows "\<exists>out. py_format strf avail (QDict d) ts = Inr out"
  using assms
proof (induction ts arbitrary: avail)
  case Nil
  then show ?case by simp
next
  case (Cons tok ts)
  then have ih: "\<And>a. \<exists>out. py_format strf a (QDict d) ts = Inr out"
    by simp
  show ?case
  proof (cases tok)
    case (Lit c)
    from ih [of avail] obtain out where "py_format strf avail (QDict d) ts = Inr out" ..
    with Lit show ?thesis by (simp add: emit_def)
  next
    case (Named key)
    with Cons.prems(2) have "key \<in> fst ` set d" by simp
    then obtain val where v: "map_of d key = Some val"
      by (metis domD dom_map_of_conv_image_fst)
    from ih [of False] obtain out where "py_format strf False (QDict d) ts = Inr out" ..
    with Named v show ?thesis by (simp add: emit_def)
  next
    case Positional
    with Cons.prems(1) show ?thesis by simp
  qed
qed



lemma mogrify_mapping_distinct:
  assumes "distinct (map fst items)"
    and "comprehension (quote_item env) items = Inr pairs"
  shows "mogrify env self t (PMapping items) exec =
           (if pairs = [] then Inr t else percent env t (QDict pairs))"
proof -
  from assms have "distinct (map fst pairs)" by (simp add: quote_item_keys)
  then have "dict_of_pairs pairs = pairs" by (rule dict_of_pairs_distinct)
  with assms(2) show ?thesis
    by (simp add: mogrify_def quote_parameters_def truthy_def)
qed

lemma mogrify_mapping_reordered:
  assumes "template_tokens t = Some ts" and "Positional \<notin> set ts"
    and "distinct (map fst items)" and "distinct (map fst items')" and "set items = set items'"
    and "comprehension (quote_item (python_env adapt decode strf)) items = Inr pairs"
  shows "mogrify (python_env adapt decode strf) self t (PMapping items) exec =
           mogrify (python_env adapt decode strf) self' t (PMapping items') exec'"
    and "(\<And>key. Named key \<in> set ts \<Longrightarrow> key \<in> fst ` set items) \<Longrightarrow>
           \<exists>out. mogrify (python_env adapt decode strf) self t (PMapping items) exec = Inr out"
proof -
  let ?env = "python_env adapt decode strf"
  let ?f = "\<lambda>x. projr (quote_item ?env x)"
  have ok: "quote_item ?env x = Inr (?f x)" if "x \<in> set items" for x
    using comprehension_Inr(2) [OF assms(6) that] .
  have pairs: "pairs = map ?f items"
    using comprehension_Inr(1) [OF assms(6)] .
  have "quote_item ?env x = Inr (?f x)" if "x \<in> set items'" for x
    using ok that assms(5) by simp
  then have c': "comprehension (quote_item ?env) items' = Inr (map ?f items')"
    by (rule comprehension_all_Inr)
  let ?pairs' = "map ?f items'"
  have k: "map fst pairs = map fst items"
    by (rule quote_item_keys [OF assms(6)])
  have k': "map fst ?pairs' = map fst items'"
    by (rule quote_item_keys [OF c'])
  have d: "distinct (map fst pairs)" "distinct (map fst ?pairs')"
    using assms(3,4) by (simp_all only: k k')
  have "set pairs = set ?pairs'"
    using pairs assms(5) by simp
  with d have m: "map_of pairs = map_of ?pairs'"
    by (simp add: map_of_inject_set)
  have e: "pairs = [] \<longleftrightarrow> ?pairs' = []"
    using pairs assms(5) by (metis map_is_Nil_conv set_empty)
  have l: "mogrify ?env self t (PMapping items) exec =
             (if pairs = [] then Inr t else py_format strf True (QDict pairs) ts)"
    using mogrify_mapping_distinct [OF assms(3,6), of self t exec] assms(1)
    by (simp add: python_env_def py_percent_def)
  have r: "mogrify ?env self' t (PMapping items') exec' =
             (if ?pairs' = [] then Inr t else py_format strf True (QDict ?pairs') ts)"
    using mogrify_mapping_distinct [OF assms(4) c', of self' t exec'] assms(1)
    by (simp add: python_env_def py_percent_def)
  show "mogrify ?env self t (PMapping items) exec = mogrify ?env self' t (PMapping items') exec'"
    unfolding l r using e py_format_named_only [OF assms(2) m, of strf True True] by simp
  show "\<exists>out. mogrify ?env self t (PMapping items) exec = Inr out"
    if "\<And>key. Named key \<in> set ts \<Longrightarrow> key \<in> fst ` set items"
  proof -
    have "fst ` set pairs = fst ` set items"
      using k by (metis set_map)
    with that have "\<And>key. Named key \<in> set ts \<Longrightarrow> key \<in> fst ` set pairs" by simp
    from py_format_keys_present [OF assms(2) this, of strf True] show ?thesis
      unfolding l by auto
  qed
qed



lemma sample_positional_ab:
  "mogrify sample_env self ''%s'' (PMapping [(''a'', ''x''), (''b'', ''y'')]) exec =
     Inr (''{'' @ [CHR 0x27] @ ''a'' @ [CHR 0x27] @ '': '' @ [CHR 0x22, CHR 0x27] @ ''x''
            @ [CHR 0x27, CHR 0x22] @ '', '' @ [CHR 0x27] @ ''b'' @ [CHR 0x27] @ '': ''
            @ [CHR 0x22, CHR 0x27] @ ''y'' @ [CHR 0x27, CHR 0x22] @ ''}'')"
  by (simp add: mogrify_def quote_parameters_def quote_item_def dict_of_pairs_def truthy_def
        sample_env_def python_env_def py_percent_def template_tokens_def
        sample_getquoted_def sample_decode_def plain_char_def
        sample_str_def repr_item_def sample_repr_def repr_char_def emit_def)

lemma sample_positional_ba:
  "mogrify sample_env self ''%s'' (PMapping [(''b'', ''y''), (''a'', ''x'')]) exec =
     Inr (''{'' @ [CHR 0x27] @ ''b'' @ [CHR 0x27] @ '': '' @ [CHR 0x22, CHR 0x27] @ ''y''
            @ [CHR 0x27, CHR 0x22] @ '', '' @ [CHR 0x27] @ ''a'' @ [CHR 0x27] @ '': ''
            @ [CHR 0x22, CHR 0x27] @ ''x'' @ [CHR 0x27, CHR 0x22] @ ''}'')"
  by (simp add: mogrify_def quote_parameters_def quote_item_def dict_of_pairs_def truthy_def
        sample_env_def python_env_def py_percent_def template_tokens_def
        sample_getquoted_def sample_decode_def plain_char_def
        sample_str_def repr_item_def sample_repr_def repr_char_def emit_def)

lemma sample_named_ab:
  "mogrify sample_env self ''SELECT %(a)s, %(b)s'' (PMapping [(''a'', ''x''), (''b'', ''y'')]) exec =
     Inr (''SELECT '' @ [CHR 0x27] @ ''x'' @ [CHR 0x27] @ '', '' @ [CHR 0x27] @ ''y'' @ [CHR 0x27])"
  by (simp add: mogrify_def quote_parameters_def quote_item_def dict_of_pairs_def truthy_def
        sample_env_def python_env_def py_percent_def template_tokens_def
        sample_getquoted_def sample_decode_def plain_char_def emit_def)

lemma sample_tokens_named:
  "template_tokens ''%(a)s'' = Some [Named ''a'']"
  "template_tokens ''SELECT %(a)s, %(b)s'' =
     Some (map Lit ''SELECT '' @ [Named ''a''] @ map Lit '', '' @ [Named ''b''])"
  by (simp_all add: template_tokens_def)

lemma sample_quote_items_ab:
  "comprehension (quote_item (python_env sample_getquoted sample_decode sample_str))
     [(''a'', ''x''), (''b'', ''y'')] =
   Inr [(''a'', [CHR 0x27, CHR ''x'', CHR 0x27]), (''b'', [CHR 0x27, CHR ''y'', CHR 0x27])]"
  by (simp add: quote_item_def python_env_def sample_getquoted_def sample_decode_def
        plain_char_def)




text \<open>
  Claim C3, as stated, fails. Two mappings with the same keys and values are equal
  inputs, in whatever order their items were inserted; \<^verbatim>\<open>mogrify\<close> keeps the order
  of each, and the template \<^verbatim>\<open>%s\<close> writes \<^verbatim>\<open>str()\<close> of the dictionary, which lists
  the items in that order. The two rendered strings differ.
\<close>

theorem mogrify_equal_mappings_counterexample:
  "set [(''a'', ''x''), (''b'', ''y'')] = set [(''b'', ''y''), (''a'', ''x'')]
   \<and> mogrify sample_env () ''%s'' (PMapping [(''a'', ''x''), (''b'', ''y'')]) False
       \<noteq> mogrify sample_env () ''%s'' (PMapping [(''b'', ''y''), (''a'', ''x'')]) False"
proof (rule conjI)
  show "set [(''a'', ''x''), (''b'', ''y'')] = set [(''b'', ''y''), (''a'', ''x'')]"
    by (simp add: insert_commute)
  show "mogrify sample_env () ''%s'' (PMapping [(''a'', ''x''), (''b'', ''y'')]) False
          \<noteq> mogrify sample_env () ''%s'' (PMapping [(''b'', ''y''), (''a'', ''x'')]) False"
    unfolding sample_positional_ab sample_positional_ba by simp
qed

text \<open>
  Claim C3, amended. Take a template made of plain text, \<^verbatim>\<open>%%\<close> and named
  placeholders \<^verbatim>\<open>%(key)s\<close>, and two mappings with the same keys and values, their
  items in any order, whose values are quoted without error. Two calls of
  \<^verbatim>\<open>mogrify\<close>, on whatever client and with whatever \<^verbatim>\<open>execute\<close> argument, have the
  same outcome, and when the mapping has every key the template names the outcome is a
  rendered string. For any template, two calls with the same sequence, or with the
  same mapping in the same order, have the same outcome. The quoting of the adapter,
  the decoding and \<^verbatim>\<open>str()\<close> are functions of their arguments.
\<close>

theorem mogrify_equal_inputs_equal_outcome:
  assumes "template_tokens t = Some ts" and "Positional \<notin> set ts"
    and "distinct (map fst items)" and "distinct (map fst items')" and "set items = set items'"
    and "comprehension (quote_item (python_env adapt decode strf)) items = Inr pairs"
  shows "mogrify (python_env adapt decode strf) self t (PMapping items) exec =
           mogrify (python_env adapt decode strf) self' t (PMapping items') exec'
         \<and> ((\<forall>key. Named key \<in> set ts \<longrightarrow> key \<in> fst ` set items) \<longrightarrow>
              (\<exists>out. mogrify (python_env adapt decode strf) self t (PMapping items) exec = Inr out
                   \<and> mogrify (python_env adapt decode strf) self' t (PMapping items') exec' = Inr out))
         \<and> mogrify env self batch (PSequence vals) exec = mogrify env self' batch (PSequence vals) exec'
         \<and> mogrify env self batch (PMapping items) exec = mogrify env self' batch (PMapping items) exec'"
proof -
  note eq = mogrify_mapping_reordered(1) [OF assms, of self exec self' exec']
  have "\<exists>out. mogrify (python_env adapt decode strf) self t (PMapping items) exec = Inr out
             \<and> mogrify (python_env adapt decode strf) self' t (PMapping items') exec' = Inr out"
    if "\<forall>key. Named key \<in> set ts \<longrightarrow> key \<in> fst ` set items"
  proof -
    from that have "\<And>key. Named key \<in> set ts \<Longrightarrow> key \<in> fst ` set items" by blast
    from mogrify_mapping_reordered(2) [OF assms this, of self exec] obtain out where
      o: "mogrify (python_env adapt decode strf) self t (PMapping items) exec = Inr out" ..
    have "mogrify (python_env adapt decode strf) self' t (PMapping items') exec' = Inr out"
      unfolding eq [symmetric] by (rule o)
    with o show ?thesis by blast
  qed
  moreover have "mogrify env self batch (PSequence vals) exec =
                   mogrify env self' batch (PSequence vals) exec'"
    by (simp add: mogrify_def)
  moreover have "mogrify env self batch (PMapping items) exec =
                   mogrify env self' batch (PMapping items) exec'"
    by (simp add: mogrify_def)
  ultimately show ?thesis using eq by blast
qed

theorem mogrify_equal_inputs_equal_outcome_witness:
  "mogrify sample_env (0 :: nat) ''SELECT %(a)s, %(b)s''
       (PMapping [(''a'', ''x''), (''b'', ''y'')]) False =
     Inr (''SELECT '' @ [CHR 0x27] @ ''x'' @ [CHR 0x27] @ '', '' @ [CHR 0x27] @ ''y'' @ [CHR 0x27])
   \<and> mogrify sample_env (1 :: nat) ''SELECT %(a)s, %(b)s''
       (PMapping [(''b'', ''y''), (''a'', ''x'')]) True =
     Inr (''SELECT '' @ [CHR 0x27] @ ''x'' @ [CHR 0x27] @ '', '' @ [CHR 0x27] @ ''y'' @ [CHR 0x27])"
proof -
  let ?ts = "map Lit ''SELECT '' @ [Named ''a''] @ map Lit '', '' @ [Named ''b'']"
  have toks: "template_tokens ''SELECT %(a)s, %(b)s'' = Some ?ts"
    by (rule sample_tokens_named(2))
  have pos: "Positional \<notin> set ?ts"
    by auto
  have d: "distinct (map fst [(''a'', ''x''), (''b'', ''y'')])"
    and d': "distinct (map fst [(''b'', ''y''), (''a'', ''x'')])"
    by simp_all
  have s: "set [(''a'', ''x''), (''b'', ''y'')] = set [(''b'', ''y''), (''a'', ''x'')]"
    by (simp add: insert_commute)
  note inst = mogrify_equal_inputs_equal_outcome [OF toks pos d d' s sample_quote_items_ab,
      of "0 :: nat" False 1 True]
  have eq: "mogrify sample_env (0 :: nat) ''SELECT %(a)s, %(b)s''
              (PMapping [(''a'', ''x''), (''b'', ''y'')]) False =
            mogrify sample_env (1 :: nat) ''SELECT %(a)s, %(b)s''
              (PMapping [(''b'', ''y''), (''a'', ''x'')]) True"
    unfolding sample_env_def by (rule inst [THEN conjunct1])
  show ?thesis
    using eq sample_named_ab [of "0 :: nat" False] by simp
qed

text \<open>
  Claim C10. With \<^verbatim>\<open>None\<close>, an empty mapping or an empty sequence as parameters,
  \<^verbatim>\<open>mogrify\<close> returns the template as it is, for every template. No substitution is
  attempted: the result is the same in every environment, also in one whose quoting
  and formatting always raise.
\<close>

theorem mogrify_without_parameters_returns_template:
  "mogrify env self batch PNone exec = Inr batch
   \<and> mogrify env self batch (PMapping []) exec = Inr batch
   \<and> mogrify env self batch (PSequence []) exec = Inr batch"
  by (simp add: mogrify_falsy)

theorem mogrify_without_parameters_returns_template_witness:
  "mogrify sample_env () ''SELECT %(a)s, %s'' PNone False = Inr ''SELECT %(a)s, %s''
   \<and> mogrify sample_env () ''SELECT %(a)s, %s'' (PMapping []) False = Inr ''SELECT %(a)s, %s''
   \<and> mogrify sample_env () ''SELECT %(a)s, %s'' (PSequence []) False = Inr ''SELECT %(a)s, %s''"
  by (rule mogrify_without_parameters_returns_template)

text \<open>
  Claim C5. \<^verbatim>\<open>id_cols\<close> on the table name \<^verbatim>\<open>my_identity_table\<close> returns the set
  with the one column \<^verbatim>\<open>id_col\<close>; on every other table name it returns \<^verbatim>\<open>None\<close>,
  that is, it reports no identity column.
\<close>

theorem id_cols_only_my_identity_table:
  "id_cols self ''my_identity_table'' = Some {''id_col''}
   \<and> (\<forall>table_name. table_name \<noteq> ''my_identity_table'' \<longrightarrow> id_cols self table_name = None)"
  by (simp add: id_cols_def)

theorem id_cols_only_my_identity_table_witness:
  "id_cols () ''my_identity_table'' = Some {''id_col''} \<and> id_cols () ''my_table'' = None"
proof -
  have other: "''my_table'' \<noteq> ''my_identity_table''" by simp
  note spec = id_cols_only_my_identity_table [of "()"]
  from spec have a: "id_cols () ''my_identity_table'' = Some {''id_col''}"
    by (rule conjunct1)
  from spec [THEN conjunct2, rule_format, OF other] have b: "id_cols () ''my_table'' = None" .
  from a b show ?thesis by (rule conjI)
qed

text \<open>
  Claim C6. \<^verbatim>\<open>columns_and_types\<close> returns the same list of three columns with
  their types for every table and every \<^verbatim>\<open>col_str\<close>, given or left to its default.
\<close>

theorem columns_and_types_fixed:
  "columns_and_types self table col_str =
     [(''foo'', ''boolean''), (''bar'', ''numeric(23,2)''), (''baz'', ''character varying(256)'')]
   \<and> columns_and_types_default self table =
     [(''foo'', ''boolean''), (''bar'', ''numeric(23,2)''), (''baz'', ''character varying(256)'')]"
  by (simp add: columns_and_types_def columns_and_types_default_def)

theorem columns_and_types_fixed_witness:
  "columns_and_types () ''my_table'' ''foo, bar'' =
     [(''foo'', ''boolean''), (''bar'', ''numeric(23,2)''), (''baz'', ''character varying(256)'')]
   \<and> columns_and_types_default () ''other_table'' =
     [(''foo'', ''boolean''), (''bar'', ''numeric(23,2)''), (''baz'', ''character varying(256)'')]"
  by (rule conjI [OF columns_and_types_fixed [THEN conjunct1]
                     columns_and_types_fixed [THEN conjunct2]])

end
